theory Spec2Isabelle
  imports Main "HOL-Library.Multiset"
begin

section \<open>Errors\<close>

text \<open>
  Every exception the modelled code can raise is a value.  \<open>TypeError\<close> is what
  \<^verbatim>\<open>os.environ[k] = None\<close> raises, \<open>ValueError\<close> carries the message of the
  \<^verbatim>\<open>raise ValueError(...)\<close> statements (and of \<^verbatim>\<open>putenv\<close> on an embedded NUL),
  \<open>IndexError\<close> is an out-of-range list index, \<open>KeyError\<close> a missing dictionary key and
  \<open>CollaboratorError\<close> any failure reported by an external service (embedding model,
  vector store, language model).
\<close>

datatype error =
    TypeError
  | ValueError string
  | IndexError
  | KeyError string
  | CollaboratorError string

section \<open>Index identifiers: \<^verbatim>\<open>get_index_name\<close>\<close>

text \<open>
  Strings are byte strings (UTF-8).  All characters the function looks at (\<open>/\<close>, \<open>.\<close>,
  the blank, \<open>a\<close>--\<open>z\<close>, \<open>0\<close>--\<open>9\<close>, \<open>-\<close>) are ASCII, and every byte of a
  multi-byte character is outside \<open>[a-z0-9]\<close>, so it is replaced by a hyphen like the
  character it belongs to.
\<close>

text \<open>\<^verbatim>\<open>os.path.basename\<close> (POSIX): everything after the last slash.\<close>

definition basename :: "string \<Rightarrow> string" where
  "basename p = rev (takeWhile (\<lambda>c. c \<noteq> CHR ''/'') (rev p))"

text \<open>
  \<^verbatim>\<open>re.split(r'[.]', s)\<close> and \<^verbatim>\<open>s.split(' ')\<close>: split at every occurrence of one
  separator character; \<open>n\<close> separators give \<open>n + 1\<close> pieces, some of them possibly empty.
\<close>

fun split_on :: "char \<Rightarrow> string \<Rightarrow> string list" where
  "split_on sep [] = [[]]"
| "split_on sep (c # cs) =
     (if c = sep then [] # split_on sep cs
      else (case split_on sep cs of
              [] \<Rightarrow> [[c]]
            | w # ws \<Rightarrow> (c # w) # ws))"

text \<open>\<^verbatim>\<open>sep.join(ws)\<close>.\<close>

fun join :: "string \<Rightarrow> string list \<Rightarrow> string" where
  "join sep [] = []"
| "join sep [w] = w"
| "join sep (w # v # ws) = w @ sep @ join sep (v # ws)"

text \<open>
  \<^verbatim>\<open>str.lower\<close> on the ASCII letters; other bytes are left as they are.  The
  properties proved below hold for the two substitutions applied to any string, so
  they do not depend on how letters outside ASCII are lowered.
\<close>

definition lower_char :: "char \<Rightarrow> char" where
  "lower_char c =
     (case map_of (zip ''ABCDEFGHIJKLMNOPQRSTUVWXYZ'' ''abcdefghijklmnopqrstuvwxyz'') c of
        None \<Rightarrow> c
      | Some l \<Rightarrow> l)"

definition lower :: "string \<Rightarrow> string" where
  "lower s = map lower_char s"

text \<open>The character class \<open>[a-z0-9]\<close>.\<close>

definition is_lower_alnum :: "char \<Rightarrow> bool" where
  "is_lower_alnum c \<longleftrightarrow> c \<in> set ''abcdefghijklmnopqrstuvwxyz0123456789''"

text \<open>\<^verbatim>\<open>re.sub(r'[^a-z0-9]', '-', s)\<close>.\<close>

definition sub_non_alnum :: "string \<Rightarrow> string" where
  "sub_non_alnum s = map (\<lambda>c. if is_lower_alnum c then c else CHR ''-'') s"

text \<open>\<^verbatim>\<open>re.sub(r'-{1,}', '-', s)\<close>: every maximal run of hyphens becomes one hyphen.\<close>

fun sub_hyphen_runs :: "string \<Rightarrow> string" where
  "sub_hyphen_runs [] = []"
| "sub_hyphen_runs [c] = [c]"
| "sub_hyphen_runs (c # d # cs) =
     (if c = CHR ''-'' \<and> d = CHR ''-'' then sub_hyphen_runs (d # cs)
      else c # sub_hyphen_runs (d # cs))"

text \<open>
  The function itself.  \<^verbatim>\<open>re.split(...)[:-1]\<close> drops the last dot-separated piece
  (\<open>butlast\<close>); \<^verbatim>\<open>[0]\<close> on the remaining list raises \<open>IndexError\<close> when it is empty;
  \<^verbatim>\<open>[-5:]\<close> keeps the last five words; \<^verbatim>\<open>.lower()\<close> binds tighter than \<open>+\<close> and
  so applies to the joined words only, not to the prefix; \<^verbatim>\<open>[:45]\<close> is \<open>take 45\<close>.
\<close>

definition get_index_name :: "string \<Rightarrow> string \<Rightarrow> error + string" where
  "get_index_name prefix data_source =
     (case butlast (split_on CHR ''.'' (basename data_source)) of
        [] \<Rightarrow> Inl IndexError
      | stem # _ \<Rightarrow>
          (let words = split_on CHR '' '' stem;
               index_name = prefix @ '':'' @ lower (join '' '' (drop (length words - 5) words))
           in Inr (take 45 (sub_hyphen_runs (sub_non_alnum index_name)))))"

text \<open>
  The properties of an identifier.  \<open>index_regex\<close> is the regular expression
  \<^verbatim>\<open>^[a-z0-9]+(-[a-z0-9]+)*$\<close>: the pieces between hyphens are all non-empty and
  consist of \<open>[a-z0-9]\<close> only.
\<close>

definition index_regex :: "string \<Rightarrow> bool" where
  "index_regex s = list_all (\<lambda>w. w \<noteq> [] \<and> list_all is_lower_alnum w) (split_on CHR ''-'' s)"

definition index_chars :: "string \<Rightarrow> bool" where
  "index_chars s = list_all (\<lambda>c. is_lower_alnum c \<or> c = CHR ''-'') s"

fun no_repeated_hyphen :: "string \<Rightarrow> bool" where
  "no_repeated_hyphen [] = True"
| "no_repeated_hyphen [c] = True"
| "no_repeated_hyphen (c # d # cs) =
     (\<not> (c = CHR ''-'' \<and> d = CHR ''-'') \<and> no_repeated_hyphen (d # cs))"


section \<open>Credentials: \<^verbatim>\<open>set_env\<close>\<close>

text \<open>
  The process environment \<^verbatim>\<open>os.environ\<close> is a dictionary from names to strings.
  \<open>set_env\<close> mutates it, so the model takes the environment and returns the outcome
  together with the environment as the call leaves it (also when it raises).
\<close>

type_synonym environ = "string \<rightharpoonup> string"

text \<open>The inner helper: \<^verbatim>\<open>os.environ.get(param) is None or os.environ.get(param) == ""\<close>.\<close>

definition os_param_not_set :: "environ \<Rightarrow> string \<Rightarrow> bool" where
  "os_param_not_set env param \<longleftrightarrow> env param = None \<or> env param = Some []"

text \<open>
  \<^verbatim>\<open>os.environ[key] = val\<close>.  The assigned Python value is a string or \<^verbatim>\<open>None\<close>
  (\<open>string option\<close>).  \<^verbatim>\<open>os.environ\<close> encodes the value first and raises
  \<^verbatim>\<open>TypeError\<close> ("str expected, not NoneType") for \<^verbatim>\<open>None\<close>; \<^verbatim>\<open>putenv\<close> then
  raises \<^verbatim>\<open>ValueError\<close> for a string with an embedded NUL.  Nothing is stored when
  the assignment raises.
\<close>

definition environ_setitem ::
  "string \<Rightarrow> string option \<Rightarrow> environ \<Rightarrow> (error + unit) \<times> environ" where
  "environ_setitem key val env =
     (case val of
        None \<Rightarrow> (Inl TypeError, env)
      | Some v \<Rightarrow>
          if CHR 0x00 \<in> set v then (Inl (ValueError ''embedded null byte''), env)
          else (Inr (), env(key \<mapsto> v)))"

text \<open>Statement sequencing: the second statement runs only if the first did not raise.\<close>

definition and_then ::
  "(error + unit) \<times> environ \<Rightarrow> (environ \<Rightarrow> (error + unit) \<times> environ)
     \<Rightarrow> (error + unit) \<times> environ" where
  "and_then r f = (case r of (Inl e, env) \<Rightarrow> (Inl e, env) | (Inr _, env) \<Rightarrow> f env)"

definition set_env :: "string \<Rightarrow> environ \<Rightarrow> (error + unit) \<times> environ" where
  "set_env project_name env0 =
     and_then (environ_setitem ''LANGCHAIN_TRACING_V2'' (Some ''true'') env0) (\<lambda>env1.
     and_then (environ_setitem ''LANGCHAIN_ENDPOINT'' (Some ''https://api.smith.langchain.com'') env1) (\<lambda>env2.
     and_then (environ_setitem ''LANGCHAIN_PROJECT'' (Some project_name) env2) (\<lambda>env3.
     and_then
       (if os_param_not_set env3 ''LANGCHAIN_API_KEY'' then
          and_then (environ_setitem ''LANGCHAIN_TRACING_V2'' None env3) (\<lambda>env4.
          and_then (environ_setitem ''LANGCHAIN_ENDPOINT'' None env4) (\<lambda>env5.
          environ_setitem ''LANGCHAIN_PROJECT'' None env5))
        else (Inr (), env3)) (\<lambda>env6.
     if os_param_not_set env6 ''GROQ_API_KEY'' then
       (Inl (ValueError ''GROQ_API_KEY not set.''), env6)
     else if os_param_not_set env6 ''PINECONE_API_KEY'' then
       (Inl (ValueError ''PINECONE_API_KEY not set.''), env6)
     else (Inr (), env6)))))"

section \<open>Retrieved documents and deduplication: \<^verbatim>\<open>get_unique_union\<close>\<close>

text \<open>
  A document is its text and its metadata; the metadata dictionary is kept as the
  list of its key/value pairs in insertion order, which is the order the serialiser
  writes them in.
\<close>

record document =
  page_content :: string
  metadata :: "(string \<times> string) list"

text \<open>
  \<open>get_unique_union\<close> uses three library functions, which are parameters here:
  \<open>dumps\<close> and \<open>loads\<close> (\<^verbatim>\<open>langchain.load\<close>: a document to its serialised text and
  back), and \<open>list_set\<close> for \<^verbatim>\<open>list(set(xs))\<close>, which lists every distinct element
  of \<open>xs\<close> once, in an order the language does not fix.
\<close>

definition set_enumeration :: "(string list \<Rightarrow> string list) \<Rightarrow> bool" where
  "set_enumeration list_set \<longleftrightarrow> (\<forall>xs. distinct (list_set xs) \<and> set (list_set xs) = set xs)"

definition get_unique_union ::
  "(document \<Rightarrow> string) \<Rightarrow> (string \<Rightarrow> document) \<Rightarrow> (string list \<Rightarrow> string list)
     \<Rightarrow> document list \<Rightarrow> string list" where
  "get_unique_union dumps loads list_set documents =
     (let flattened_docs = map dumps documents;
          unique_docs = list_set flattened_docs
      in map (\<lambda>doc. page_content (loads doc)) unique_docs)"

section \<open>The final chain: \<^verbatim>\<open>get_final_rag_chain\<close>\<close>

text \<open>
  The chain talks to three collaborators: the query-enhancement chain, the retriever
  and the language model.  Each is a parameter, a function that returns a result or
  an error.  Every invocation of a collaborator is recorded in a trace, so that the
  calls a run makes can be stated.
\<close>

type_synonym chain_input = "(string \<times> string) list"

record prompt_vars =
  normal_context :: "string list"
  step_back_context :: "string list"
  question :: string

datatype chain_call =
    Reformulate chain_input
  | Search string
  | Complete prompt_vars

type_synonym 'a traced = "(error + 'a) \<times> chain_call list"

text \<open>\<^verbatim>\<open>x[key]\<close> on the input dictionary.\<close>

definition getitem :: "chain_input \<Rightarrow> string \<Rightarrow> error + string" where
  "getitem x key = (case map_of x key of None \<Rightarrow> Inl (KeyError key) | Some v \<Rightarrow> Inr v)"

text \<open>A plain function as a chain step (\<^verbatim>\<open>RunnableLambda\<close>): no collaborator is called.\<close>

definition runnable_lambda :: "('a \<Rightarrow> error + 'b) \<Rightarrow> 'a \<Rightarrow> 'b traced" where
  "runnable_lambda f x = (f x, [])"

text \<open>A collaborator as a chain step: the call is recorded, whatever its outcome.\<close>

definition invoke :: "('a \<Rightarrow> chain_call) \<Rightarrow> ('a \<Rightarrow> error + 'b) \<Rightarrow> 'a \<Rightarrow> 'b traced" where
  "invoke tag f x = (f x, [tag x])"

text \<open>\<^verbatim>\<open>first | second\<close>: the output of the first step is the input of the second.\<close>

definition pipe :: "('a \<Rightarrow> 'b traced) \<Rightarrow> ('b \<Rightarrow> 'c traced) \<Rightarrow> 'a \<Rightarrow> 'c traced" where
  "pipe first second x =
     (case first x of
        (Inl e, t) \<Rightarrow> (Inl e, t)
      | (Inr y, t) \<Rightarrow> (case second y of (r, t') \<Rightarrow> (r, t @ t')))"

text \<open>
  The dictionary of three steps (\<^verbatim>\<open>RunnableParallel\<close>): every step is started on the
  same input and runs to its end; the outputs are then collected in key order, and the
  first step that raised makes the whole dictionary raise.  The steps share no state,
  so the trace lists their calls step by step; the order between calls of different
  steps is not fixed by the library.
\<close>

definition parallel3 ::
  "('a \<Rightarrow> 'b traced) \<Rightarrow> ('a \<Rightarrow> 'c traced) \<Rightarrow> ('a \<Rightarrow> 'd traced) \<Rightarrow> 'a \<Rightarrow> ('b \<times> 'c \<times> 'd) traced" where
  "parallel3 f g h x =
     (case (f x, g x, h x) of
        ((r1, t1), (r2, t2), (r3, t3)) \<Rightarrow>
          ((case r1 of
              Inl e \<Rightarrow> Inl e
            | Inr a \<Rightarrow>
                (case r2 of
                   Inl e \<Rightarrow> Inl e
                 | Inr b \<Rightarrow> (case r3 of Inl e \<Rightarrow> Inl e | Inr c \<Rightarrow> Inr (a, b, c)))),
           t1 @ t2 @ t3))"

text \<open>
  \<^verbatim>\<open>response_prompt\<close> fills the three variables into a fixed template; the filled
  prompt is represented by the values of its variables.  \<^verbatim>\<open>StrOutputParser\<close> returns
  the text of the completion.
\<close>

definition response_prompt :: "string list \<times> string list \<times> string \<Rightarrow> prompt_vars traced" where
  "response_prompt v =
     (case v of (nc, sc, q) \<Rightarrow>
        (Inr \<lparr>normal_context = nc, step_back_context = sc, question = q\<rparr>, []))"

definition get_final_rag_chain ::
  "(document \<Rightarrow> string) \<Rightarrow> (string \<Rightarrow> document) \<Rightarrow> (string list \<Rightarrow> string list)
     \<Rightarrow> (prompt_vars \<Rightarrow> error + string)
     \<Rightarrow> (chain_input \<Rightarrow> error + string) \<Rightarrow> (string \<Rightarrow> error + document list)
     \<Rightarrow> chain_input \<Rightarrow> string traced" where
  "get_final_rag_chain dumps loads list_set llm query_enchance_chain retriever =
     pipe
       (pipe
          (parallel3
             (pipe (pipe (runnable_lambda (\<lambda>x. getitem x ''question''))
                         (invoke Search retriever))
                   (runnable_lambda (\<lambda>docs. Inr (get_unique_union dumps loads list_set docs))))
             (pipe (pipe (invoke Reformulate query_enchance_chain)
                         (invoke Search retriever))
                   (runnable_lambda (\<lambda>docs. Inr (get_unique_union dumps loads list_set docs))))
             (runnable_lambda (\<lambda>x. getitem x ''question'')))
          response_prompt)
       (invoke Complete llm)"

text \<open>The query strings of the similarity searches in a trace.\<close>

fun search_queries :: "chain_call list \<Rightarrow> string list" where
  "search_queries [] = []"
| "search_queries (Search s # cs) = s # search_queries cs"
| "search_queries (_ # cs) = search_queries cs"

section \<open>Index provisioning: \<^verbatim>\<open>get_retriever\<close>\<close>

text \<open>
  The vector store is the state the function works on: the list of its indexes, each
  with its name, dimension, metric and the vectors stored in it (a vector is kept with
  the document it embeds; its components are of an arbitrary type \<open>'v\<close>).  The embedding
  model is a parameter, a function from texts to vectors that may fail.  The store is
  an external service; it is modelled by the contract of the operations the code uses
  (existence check, create, upsert):
  \<^item> \<^verbatim>\<open>list_indexes\<close> returns the indexes;
  \<^item> \<^verbatim>\<open>create_index\<close> adds an empty index and is rejected when the name is taken;
  \<^item> \<^verbatim>\<open>PineconeVectorStore.from_documents\<close> embeds the texts of the documents and
    adds one vector per document to the named index (it is an error if there is no
    such index);
  \<^item> \<^verbatim>\<open>PineconeVectorStore.from_existing_index\<close> opens the named index and writes
    nothing.
  Every call to the embedding model or to the store is recorded in a trace.
\<close>

record 'v pinecone_index =
  name :: string
  dimension :: nat
  metric :: string
  vectors :: "(document \<times> 'v list) list"

type_synonym 'v store = "'v pinecone_index list"

type_synonym 'v embedder = "string list \<Rightarrow> error + 'v list list"

datatype provision_call =
    EmbedDocuments "string list"
  | ListIndexes
  | CreateIndex string nat
  | FromDocuments string "document list"
  | FromExistingIndex string

record retriever_handle =
  handle_index :: string
  handle_k :: int

definition create_index :: "string \<Rightarrow> nat \<Rightarrow> 'v store \<Rightarrow> (error + unit) \<times> 'v store" where
  "create_index index_name dim store =
     (if index_name \<in> set (map name store)
      then (Inl (CollaboratorError ''index already exists''), store)
      else (Inr (),
            store @ [\<lparr>name = index_name, dimension = dim, metric = ''cosine'', vectors = []\<rparr>]))"

definition from_documents ::
  "'v embedder \<Rightarrow> document list \<Rightarrow> string \<Rightarrow> 'v store \<Rightarrow> (error + string) \<times> 'v store" where
  "from_documents embedder docs index_name store =
     (if index_name \<notin> set (map name store)
      then (Inl (CollaboratorError ''index not found''), store)
      else (case embedder (map page_content docs) of
              Inl e \<Rightarrow> (Inl e, store)
            | Inr vs \<Rightarrow>
                (Inr index_name,
                 map (\<lambda>i. if name i = index_name
                           then i\<lparr>vectors := vectors i @ zip docs vs\<rparr> else i) store)))"

definition from_existing_index :: "string \<Rightarrow> 'v store \<Rightarrow> (error + string) \<times> 'v store" where
  "from_existing_index index_name store =
     (if index_name \<notin> set (map name store)
      then (Inl (CollaboratorError ''index not found''), store)
      else (Inr index_name, store))"

text \<open>\<^verbatim>\<open>vectorstore.as_retriever(search_kwargs={"k": k})\<close>.\<close>

definition as_retriever :: "string \<Rightarrow> int \<Rightarrow> retriever_handle" where
  "as_retriever vectorstore k = \<lparr>handle_index = vectorstore, handle_k = k\<rparr>"

text \<open>
  The inner helper.  \<^verbatim>\<open>sum([index.name==index_name for index in ...]) == 1\<close> counts the
  indexes with the given name.
\<close>

definition create_pinecone_index ::
  "string \<Rightarrow> nat \<Rightarrow> 'v store \<Rightarrow> (error + bool) \<times> 'v store \<times> provision_call list" where
  "create_pinecone_index index_name dim store =
     (if length (filter (\<lambda>index. name index = index_name) store) = 1
      then (Inr False, store, [ListIndexes])
      else (case create_index index_name dim store of
              (Inl e, store') \<Rightarrow> (Inl e, store', [ListIndexes, CreateIndex index_name dim])
            | (Inr _, store') \<Rightarrow> (Inr True, store', [ListIndexes, CreateIndex index_name dim])))"

text \<open>
  \<open>get_retriever\<close>.  The argument \<^verbatim>\<open>len(embedder.embed_documents(['a'])[0])\<close> is
  evaluated before the helper is called, so the embedding model is asked for one
  vector in every run, also when the index exists.
\<close>

definition get_retriever ::
  "'v embedder \<Rightarrow> document list \<Rightarrow> int \<Rightarrow> string \<Rightarrow> 'v store
     \<Rightarrow> (error + retriever_handle) \<times> 'v store \<times> provision_call list" where
  "get_retriever embedder docs k index_name store =
     (case embedder [''a''] of
        Inl e \<Rightarrow> (Inl e, store, [EmbedDocuments [''a'']])
      | Inr [] \<Rightarrow> (Inl IndexError, store, [EmbedDocuments [''a'']])
      | Inr (v # _) \<Rightarrow>
          (case create_pinecone_index index_name (length v) store of
             (Inl e, store1, t) \<Rightarrow> (Inl e, store1, EmbedDocuments [''a''] # t)
           | (Inr True, store1, t) \<Rightarrow>
               (case from_documents embedder docs index_name store1 of
                  (Inl e, store2) \<Rightarrow>
                    (Inl e, store2, EmbedDocuments [''a''] # t @ [FromDocuments index_name docs])
                | (Inr vectorstore, store2) \<Rightarrow>
                    (Inr (as_retriever vectorstore k), store2,
                     EmbedDocuments [''a''] # t @ [FromDocuments index_name docs]))
           | (Inr False, store1, t) \<Rightarrow>
               (case from_existing_index index_name store1 of
                  (Inl e, store2) \<Rightarrow>
                    (Inl e, store2, EmbedDocuments [''a''] # t @ [FromExistingIndex index_name])
                | (Inr vectorstore, store2) \<Rightarrow>
                    (Inr (as_retriever vectorstore k), store2,
                     EmbedDocuments [''a''] # t @ [FromExistingIndex index_name]))))"

text \<open>The store reports an index of this name; the number of vectors in the store.\<close>

definition index_exists :: "string \<Rightarrow> 'v store \<Rightarrow> bool" where
  "index_exists index_name store \<longleftrightarrow> length (filter (\<lambda>index. name index = index_name) store) = 1"

definition vector_count :: "'v store \<Rightarrow> nat" where
  "vector_count store = sum_list (map (\<lambda>index. length (vectors index)) store)"

fun is_write :: "provision_call \<Rightarrow> bool" where
  "is_write (CreateIndex _ _) = True"
| "is_write (FromDocuments _ _) = True"
| "is_write _ = False"

section \<open>Properties of \<^verbatim>\<open>get_index_name\<close>\<close>

lemma index_chars_sub_non_alnum: "index_chars (sub_non_alnum s)"
  by (induction s) (simp_all add: index_chars_def sub_non_alnum_def)

lemma set_sub_hyphen_runs: "set (sub_hyphen_runs s) \<subseteq> set s"
  by (induction s rule: sub_hyphen_runs.induct) auto

lemma index_chars_sub_hyphen_runs: "index_chars s \<Longrightarrow> index_chars (sub_hyphen_runs s)"
  using set_sub_hyphen_runs [of s] by (auto simp: index_chars_def list_all_iff)

lemma index_chars_take: "index_chars s \<Longrightarrow> index_chars (take n s)"
  by (auto simp: index_chars_def list_all_iff dest: in_set_takeD)

lemma hd_sub_hyphen_runs: "s \<noteq> [] \<Longrightarrow> sub_hyphen_runs s \<noteq> [] \<and> hd (sub_hyphen_runs s) = hd s"
  by (induction s rule: sub_hyphen_runs.induct) auto

lemma no_repeated_hyphen_sub_hyphen_runs: "no_repeated_hyphen (sub_hyphen_runs s)"
proof (induction s rule: sub_hyphen_runs.induct)
  case (3 c d cs)
  obtain e es where e: "sub_hyphen_runs (d # cs) = e # es" "e = d"
    using hd_sub_hyphen_runs [of "d # cs"] by (cases "sub_hyphen_runs (d # cs)") auto
  with 3 show ?case by auto
qed simp_all

lemma no_repeated_hyphen_take: "no_repeated_hyphen s \<Longrightarrow> no_repeated_hyphen (take n s)"
proof (induction s arbitrary: n rule: no_repeated_hyphen.induct)
  case (3 c d cs)
  show ?case
  proof (cases n)
    case (Suc m)
    from 3 have "no_repeated_hyphen (take m (d # cs))" by simp
    with 3 Suc show ?thesis by (cases m) auto
  qed simp
next
  case (2 c)
  show ?case by (cases n) simp_all
qed simp

lemma length_split_on: "length (split_on sep s) = Suc (length (filter (\<lambda>c. c = sep) s))"
  by (induction s) (auto split: list.splits)

lemma butlast_split_on_Nil: "butlast (split_on sep s) = [] \<longleftrightarrow> sep \<notin> set s"
proof -
  have "butlast (split_on sep s) = [] \<longleftrightarrow> length (split_on sep s) \<le> 1"
    by (cases "split_on sep s") (auto split: if_splits)
  also have "\<dots> \<longleftrightarrow> filter (\<lambda>c. c = sep) s = []"
    by (simp add: length_split_on)
  also have "\<dots> \<longleftrightarrow> sep \<notin> set s"
    by (auto simp: filter_empty_conv)
  finally show ?thesis .
qed

lemma basename_append_slash: "CHR ''/'' \<notin> set f \<Longrightarrow> basename (d @ ''/'' @ f) = f"
proof -
  assume f: "CHR ''/'' \<notin> set f"
  have "takeWhile (\<lambda>c. c \<noteq> CHR ''/'') (rev f @ CHR ''/'' # rev d) = rev f"
    using f by (subst takeWhile_append2) auto
  then show ?thesis by (simp add: basename_def)
qed

lemma sub_hyphen_runs_Nil: "sub_hyphen_runs s = [] \<longleftrightarrow> s = []"
  using hd_sub_hyphen_runs [of s] by (cases s) auto

text \<open>
  Claim C3, as amended.  Whenever \<open>get_index_name\<close> returns an identifier, the
  identifier is non-empty, consists of the characters \<open>[a-z0-9-]\<close> only, has no two
  hyphens in a row and is at most 45 characters long.  (It may begin or end with a
  hyphen, see the counterexample below.)
\<close>

theorem get_index_name_shape:
  assumes "get_index_name prefix data_source = Inr s"
  shows "index_chars s \<and> no_repeated_hyphen s \<and> length s \<le> 45 \<and> s \<noteq> []"
proof -
  from assms obtain raw where s: "s = take 45 (sub_hyphen_runs (sub_non_alnum raw))"
    and raw: "raw \<noteq> []"
    by (auto simp: get_index_name_def Let_def split: list.splits)
  have "index_chars s"
    unfolding s by (intro index_chars_take index_chars_sub_hyphen_runs index_chars_sub_non_alnum)
  moreover have "no_repeated_hyphen s"
    unfolding s by (intro no_repeated_hyphen_take no_repeated_hyphen_sub_hyphen_runs)
  moreover have "length s \<le> 45"
    unfolding s by simp
  moreover have "s \<noteq> []"
    unfolding s using raw by (simp add: sub_hyphen_runs_Nil sub_non_alnum_def)
  ultimately show ?thesis by simp
qed

theorem get_index_name_shape_witness:
  "get_index_name ''rag-abstract-8'' ''docs/My Doc (1).pdf'' = Inr ''rag-abstract-8-my-doc-1-''
   \<and> index_chars ''rag-abstract-8-my-doc-1-''
   \<and> no_repeated_hyphen ''rag-abstract-8-my-doc-1-''
   \<and> length ''rag-abstract-8-my-doc-1-'' \<le> 45"
proof -
  have h: "get_index_name ''rag-abstract-8'' ''docs/My Doc (1).pdf'' = Inr ''rag-abstract-8-my-doc-1-''"
    by (simp add: get_index_name_def basename_def lower_def lower_char_def sub_non_alnum_def
        is_lower_alnum_def)
  from get_index_name_shape [OF h] h show ?thesis by simp
qed

text \<open>
  Claim C3 as stated fails: for the prefix used by \<^verbatim>\<open>main\<close> and the file
  \<^verbatim>\<open>docs/My Doc (1).pdf\<close> the identifier ends in a hyphen and so does not match
  \<^verbatim>\<open>^[a-z0-9]+(-[a-z0-9]+)*$\<close>.
\<close>

theorem get_index_name_regex_counterexample:
  "get_index_name ''rag-abstract-8'' ''docs/My Doc (1).pdf'' = Inr ''rag-abstract-8-my-doc-1-''
   \<and> \<not> index_regex ''rag-abstract-8-my-doc-1-''"
  by (simp add: get_index_name_def basename_def lower_def lower_char_def sub_non_alnum_def
      is_lower_alnum_def index_regex_def)

text \<open>
  Claim C7.  The identifier is a function of the prefix and of the file name alone: two
  calls with the same prefix and data sources that have the same base name (in
  particular, two calls with the same arguments) return the same result.
\<close>

theorem get_index_name_deterministic:
  assumes "prefix = prefix'" and "basename data_source = basename data_source'"
  shows "get_index_name prefix data_source = get_index_name prefix' data_source'"
  using assms by (simp add: get_index_name_def)

theorem get_index_name_deterministic_witness:
  "basename ''docs/a b.pdf'' = basename ''/tmp/x/a b.pdf''
   \<and> get_index_name ''rag'' ''docs/a b.pdf'' = get_index_name ''rag'' ''/tmp/x/a b.pdf''
   \<and> get_index_name ''rag'' ''docs/a b.pdf'' = Inr ''rag-a-b''"
proof -
  have b: "basename ''docs/a b.pdf'' = basename ''/tmp/x/a b.pdf''"
    by (simp add: basename_def)
  have v: "get_index_name ''rag'' ''docs/a b.pdf'' = Inr ''rag-a-b''"
    by (simp add: get_index_name_def basename_def lower_def lower_char_def sub_non_alnum_def
        is_lower_alnum_def)
  from get_index_name_deterministic [OF refl b, of "''rag''"] b v show ?thesis by simp
qed

text \<open>
  Claim C10.  \<open>get_index_name\<close> raises \<open>IndexError\<close> exactly when the base name of
  the data source contains no dot; hence an identifier is produced only for file names
  with an extension.
\<close>

theorem get_index_name_no_dot:
  "get_index_name prefix data_source = Inl IndexError
     \<longleftrightarrow> CHR ''.'' \<notin> set (basename data_source)"
proof -
  have "get_index_name prefix data_source = Inl IndexError
          \<longleftrightarrow> butlast (split_on CHR ''.'' (basename data_source)) = []"
    by (simp add: get_index_name_def Let_def split: list.splits)
  then show ?thesis by (simp add: butlast_split_on_Nil)
qed

theorem get_index_name_no_dot_witness:
  "CHR ''.'' \<notin> set (basename ''docs.v2/README'')
   \<and> get_index_name ''rag-abstract-8'' ''docs.v2/README'' = Inl IndexError"
proof -
  have h: "CHR ''.'' \<notin> set (basename ''docs.v2/README'')"
    by (simp add: basename_def)
  with get_index_name_no_dot [of "''rag-abstract-8''" "''docs.v2/README''"] show ?thesis by simp
qed


section \<open>Properties of \<^verbatim>\<open>set_env\<close>\<close>

text \<open>
  Claim C9.  When \<^verbatim>\<open>LANGCHAIN_API_KEY\<close> is unset or empty, \<open>set_env\<close> raises before it
  looks at \<^verbatim>\<open>GROQ_API_KEY\<close> or \<^verbatim>\<open>PINECONE_API_KEY\<close>, whatever their values: the
  error is the \<open>TypeError\<close> of assigning \<^verbatim>\<open>None\<close> to an environment variable (or,
  for a project name with an embedded NUL, the \<open>ValueError\<close> of the assignment of the
  project name), never one of the two credential errors.
\<close>

theorem set_env_without_langchain_key:
  assumes "os_param_not_set env ''LANGCHAIN_API_KEY''"
  shows "fst (set_env project_name env) =
           Inl (if CHR 0x00 \<in> set project_name then ValueError ''embedded null byte''
                else TypeError)"
  using assms
  by (simp add: set_env_def and_then_def environ_setitem_def os_param_not_set_def)

theorem set_env_without_langchain_key_witness:
  "os_param_not_set [''GROQ_API_KEY'' \<mapsto> ''gsk'', ''PINECONE_API_KEY'' \<mapsto> ''pc'']
     ''LANGCHAIN_API_KEY''
   \<and> \<not> os_param_not_set [''GROQ_API_KEY'' \<mapsto> ''gsk'', ''PINECONE_API_KEY'' \<mapsto> ''pc'']
     ''GROQ_API_KEY''
   \<and> \<not> os_param_not_set [''GROQ_API_KEY'' \<mapsto> ''gsk'', ''PINECONE_API_KEY'' \<mapsto> ''pc'']
     ''PINECONE_API_KEY''
   \<and> fst (set_env ''rag_abstract_8_python''
          [''GROQ_API_KEY'' \<mapsto> ''gsk'', ''PINECONE_API_KEY'' \<mapsto> ''pc'']) = Inl TypeError"
proof -
  have h: "os_param_not_set [''GROQ_API_KEY'' \<mapsto> ''gsk'', ''PINECONE_API_KEY'' \<mapsto> ''pc'']
     ''LANGCHAIN_API_KEY''"
    by (simp add: os_param_not_set_def)
  from set_env_without_langchain_key [OF h, of "''rag_abstract_8_python''"] h
  show ?thesis by (simp add: os_param_not_set_def)
qed

text \<open>With all three variables set the call returns normally.\<close>

lemma set_env_all_set_example:
  "fst (set_env ''rag_abstract_8_python''
      [''GROQ_API_KEY'' \<mapsto> ''gsk'', ''PINECONE_API_KEY'' \<mapsto> ''pc'',
       ''LANGCHAIN_API_KEY'' \<mapsto> ''ls'']) = Inr ()"
  by (simp add: set_env_def and_then_def environ_setitem_def os_param_not_set_def)

section \<open>Properties of \<^verbatim>\<open>get_unique_union\<close>\<close>

lemma mset_map_enumeration:
  assumes "distinct ys" and "set ys = f ` set xs" and "inj_on f (set xs)"
  shows "mset (map g ys) = mset (map (\<lambda>x. g (f x)) (remdups xs))"
proof -
  have "mset ys = mset (map f (remdups xs))"
  proof (rule set_eq_iff_mset_eq_distinct [THEN iffD1])
    show "distinct ys" by fact
    show "distinct (map f (remdups xs))"
      using assms(3) by (simp add: distinct_map)
    show "set ys = set (map f (remdups xs))"
      using assms(2) by simp
  qed
  then have "mset (map g ys) = mset (map g (map f (remdups xs)))"
    by (metis mset_map)
  then show ?thesis by (simp add: comp_def)
qed

lemma set_enumeration_remdups: "set_enumeration remdups"
  by (simp add: set_enumeration_def)

lemma set_enumeration_Nil: "set_enumeration list_set \<Longrightarrow> list_set [] = []"
  by (metis set_enumeration_def set_empty)

text \<open>
  Claim C2.  Let \<open>list_set\<close> enumerate sets and let every retrieved document survive
  the round trip through its serialisation.  Then the result of \<open>get_unique_union\<close> has
  exactly one entry for every distinct serialisation, that is, for every distinct
  document; and, as a multiset, it is the page contents of the distinct documents and
  nothing else.
\<close>

theorem get_unique_union_dedup:
  assumes "set_enumeration list_set"
    and "\<forall>d \<in> set documents. loads (dumps d) = d"
  shows "length (get_unique_union dumps loads list_set documents) = card (dumps ` set documents)
         \<and> length (get_unique_union dumps loads list_set documents) = card (set documents)
         \<and> mset (get_unique_union dumps loads list_set documents)
             = mset (map page_content (remdups documents))"
proof -
  let ?ys = "list_set (map dumps documents)"
  have d: "distinct ?ys" and s: "set ?ys = dumps ` set documents"
    using assms(1) by (simp_all add: set_enumeration_def)
  have inj: "inj_on dumps (set documents)"
    using assms(2) by (metis inj_onI)
  have "mset (map (\<lambda>doc. page_content (loads doc)) ?ys)
          = mset (map (\<lambda>x. page_content (loads (dumps x))) (remdups documents))"
    by (rule mset_map_enumeration [OF d s inj])
  also have "map (\<lambda>x. page_content (loads (dumps x))) (remdups documents)
          = map page_content (remdups documents)"
    using assms(2) by (intro map_cong) auto
  finally have m: "mset (get_unique_union dumps loads list_set documents)
           = mset (map page_content (remdups documents))"
    by (simp add: get_unique_union_def)
  have "length (get_unique_union dumps loads list_set documents) = length (remdups documents)"
    using m by (metis length_map size_mset)
  then have l: "length (get_unique_union dumps loads list_set documents) = card (set documents)"
    by (simp add: length_remdups_card_conv)
  have "card (dumps ` set documents) = card (set documents)"
    by (rule card_image [OF inj])
  with l m show ?thesis by simp
qed

text \<open>
  The witness: a search result with the same document twice and a second document; a
  serialiser that writes the text and then the metadata pairs.
\<close>

theorem get_unique_union_dedup_witness:
  "set_enumeration remdups
   \<and> (\<lambda>s. if s = ''sky|page=1'' then \<lparr>page_content = ''sky'', metadata = [(''page'', ''1'')]\<rparr>
             else \<lparr>page_content = ''grass'', metadata = [(''page'', ''2'')]\<rparr>)
         ((\<lambda>d. page_content d @ concat (map (\<lambda>(k, v). ''|'' @ k @ ''='' @ v) (metadata d)))
            \<lparr>page_content = ''sky'', metadata = [(''page'', ''1'')]\<rparr>)
       = \<lparr>page_content = ''sky'', metadata = [(''page'', ''1'')]\<rparr>
   \<and> (\<lambda>s. if s = ''sky|page=1'' then \<lparr>page_content = ''sky'', metadata = [(''page'', ''1'')]\<rparr>
             else \<lparr>page_content = ''grass'', metadata = [(''page'', ''2'')]\<rparr>)
         ((\<lambda>d. page_content d @ concat (map (\<lambda>(k, v). ''|'' @ k @ ''='' @ v) (metadata d)))
            \<lparr>page_content = ''grass'', metadata = [(''page'', ''2'')]\<rparr>)
       = \<lparr>page_content = ''grass'', metadata = [(''page'', ''2'')]\<rparr>
   \<and> length (get_unique_union
        (\<lambda>d. page_content d @ concat (map (\<lambda>(k, v). ''|'' @ k @ ''='' @ v) (metadata d)))
        (\<lambda>s. if s = ''sky|page=1'' then \<lparr>page_content = ''sky'', metadata = [(''page'', ''1'')]\<rparr>
              else \<lparr>page_content = ''grass'', metadata = [(''page'', ''2'')]\<rparr>)
        remdups
        [\<lparr>page_content = ''sky'', metadata = [(''page'', ''1'')]\<rparr>,
         \<lparr>page_content = ''sky'', metadata = [(''page'', ''1'')]\<rparr>,
         \<lparr>page_content = ''grass'', metadata = [(''page'', ''2'')]\<rparr>]) = 2
   \<and> get_unique_union
        (\<lambda>d. page_content d @ concat (map (\<lambda>(k, v). ''|'' @ k @ ''='' @ v) (metadata d)))
        (\<lambda>s. if s = ''sky|page=1'' then \<lparr>page_content = ''sky'', metadata = [(''page'', ''1'')]\<rparr>
              else \<lparr>page_content = ''grass'', metadata = [(''page'', ''2'')]\<rparr>)
        remdups
        [\<lparr>page_content = ''sky'', metadata = [(''page'', ''1'')]\<rparr>,
         \<lparr>page_content = ''sky'', metadata = [(''page'', ''1'')]\<rparr>,
         \<lparr>page_content = ''grass'', metadata = [(''page'', ''2'')]\<rparr>] = [''sky'', ''grass'']"
proof -
  let ?dumps = "\<lambda>d. page_content d @ concat (map (\<lambda>(k, v). ''|'' @ k @ ''='' @ v) (metadata d))"
  let ?loads = "\<lambda>s. if s = ''sky|page=1''
                     then \<lparr>page_content = ''sky'', metadata = [(''page'', ''1'')]\<rparr>
                     else \<lparr>page_content = ''grass'', metadata = [(''page'', ''2'')]\<rparr>"
  let ?d1 = "\<lparr>page_content = ''sky'', metadata = [(''page'', ''1'')]\<rparr>"
  let ?d2 = "\<lparr>page_content = ''grass'', metadata = [(''page'', ''2'')]\<rparr>"
  have r1: "?loads (?dumps ?d1) = ?d1" and r2: "?loads (?dumps ?d2) = ?d2"
    by simp_all
  then have rt: "\<forall>d \<in> set [?d1, ?d1, ?d2]. ?loads (?dumps d) = d"
    by simp
  have v: "get_unique_union ?dumps ?loads remdups [?d1, ?d1, ?d2] = [''sky'', ''grass'']"
    by (simp add: get_unique_union_def)
  have c: "card (set [?d1, ?d1, ?d2]) = 2"
    by simp
  from get_unique_union_dedup [OF set_enumeration_remdups rt]
  have "length (get_unique_union ?dumps ?loads remdups [?d1, ?d1, ?d2]) = card (set [?d1, ?d1, ?d2])"
    by blast
  with c have l: "length (get_unique_union ?dumps ?loads remdups [?d1, ?d1, ?d2]) = 2"
    by simp
  from set_enumeration_remdups r1 r2 l v show ?thesis
    by blast
qed

section \<open>Properties of \<^verbatim>\<open>get_final_rag_chain\<close>\<close>

text \<open>
  Claim C4.  Invoked with \<^verbatim>\<open>{"question": q}\<close>, and with a query-enhancement chain
  that returns the reformulated question \<open>rq\<close> for it, the chain makes exactly two
  similarity searches, both with the one retriever it was built with: one with the
  query \<open>q\<close> and one with the query \<open>rq\<close>.  (As multisets, since the two branches are
  not ordered.)
\<close>

theorem final_rag_chain_searches:
  assumes "query_enchance_chain [(''question'', q)] = Inr rq"
  shows "mset (search_queries (snd (get_final_rag_chain dumps loads list_set llm
            query_enchance_chain retriever [(''question'', q)]))) = {#q, rq#}"
  using assms
  by (simp add: get_final_rag_chain_def pipe_def parallel3_def runnable_lambda_def invoke_def
      getitem_def response_prompt_def split: sum.splits prod.splits)

theorem final_rag_chain_searches_witness:
  "(\<lambda>x. Inr ''What causes atmospheric scattering of light?'')
      [(''question'', ''Why is the sky blue?'')]
     = (Inr ''What causes atmospheric scattering of light?'' :: error + string)
   \<and> mset (search_queries (snd (get_final_rag_chain
        page_content (\<lambda>s. \<lparr>page_content = s, metadata = []\<rparr>) remdups
        (\<lambda>p. Inr ''Rayleigh scattering.'')
        (\<lambda>x. Inr ''What causes atmospheric scattering of light?'')
        (\<lambda>s. Inr [])
        [(''question'', ''Why is the sky blue?'')])))
     = {#''Why is the sky blue?'', ''What causes atmospheric scattering of light?''#}"
proof -
  have h: "(\<lambda>x. Inr ''What causes atmospheric scattering of light?'')
      [(''question'', ''Why is the sky blue?'')]
     = (Inr ''What causes atmospheric scattering of light?'' :: error + string)"
    by simp
  from final_rag_chain_searches [of "\<lambda>x. Inr ''What causes atmospheric scattering of light?''"
      "''Why is the sky blue?''" "''What causes atmospheric scattering of light?''", OF h]
  show ?thesis by simp
qed

text \<open>
  Claim C8.  If the reformulation succeeds and both searches return no documents, both
  context blocks are empty, and the chain still fills the prompt (with two empty
  contexts and the question) and calls the language model with it; the outcome of the
  chain is the outcome of that call.
\<close>

theorem final_rag_chain_empty_context:
  assumes "set_enumeration list_set"
    and "query_enchance_chain [(''question'', q)] = Inr rq"
    and "retriever q = Inr []" and "retriever rq = Inr []"
  shows "get_unique_union dumps loads list_set [] = []
         \<and> get_final_rag_chain dumps loads list_set llm query_enchance_chain retriever
             [(''question'', q)]
           = (llm \<lparr>normal_context = [], step_back_context = [], question = q\<rparr>,
              [Search q, Reformulate [(''question'', q)], Search rq,
               Complete \<lparr>normal_context = [], step_back_context = [], question = q\<rparr>])"
  using assms set_enumeration_Nil [OF assms(1)]
  by (simp add: get_final_rag_chain_def pipe_def parallel3_def runnable_lambda_def invoke_def
      getitem_def response_prompt_def get_unique_union_def)

theorem final_rag_chain_empty_context_witness:
  "set_enumeration remdups
   \<and> get_final_rag_chain
        page_content (\<lambda>s. \<lparr>page_content = s, metadata = []\<rparr>) remdups
        (\<lambda>p. Inr ''I do not know.'')
        (\<lambda>x. Inr ''What causes atmospheric scattering of light?'')
        (\<lambda>s. Inr [])
        [(''question'', ''Why is the sky blue?'')]
     = (Inr ''I do not know.'',
        [Search ''Why is the sky blue?'',
         Reformulate [(''question'', ''Why is the sky blue?'')],
         Search ''What causes atmospheric scattering of light?'',
         Complete \<lparr>normal_context = [], step_back_context = [],
                   question = ''Why is the sky blue?''\<rparr>])"
proof -
  have h: "(\<lambda>x. Inr ''What causes atmospheric scattering of light?'')
      [(''question'', ''Why is the sky blue?'')]
     = (Inr ''What causes atmospheric scattering of light?'' :: error + string)"
    by simp
  have r1: "(\<lambda>s. Inr []) ''Why is the sky blue?'' = (Inr [] :: error + document list)"
    by simp
  have r2: "(\<lambda>s. Inr []) ''What causes atmospheric scattering of light?''
              = (Inr [] :: error + document list)"
    by simp
  from final_rag_chain_empty_context [OF set_enumeration_remdups h r1 r2,
      of page_content "\<lambda>s. \<lparr>page_content = s, metadata = []\<rparr>" "\<lambda>p. Inr ''I do not know.''"]
    set_enumeration_remdups
  show ?thesis by simp
qed

section \<open>Properties of \<^verbatim>\<open>get_retriever\<close>\<close>

lemma count1_names: "length (filter (\<lambda>index. name index = n) store) = 1 \<Longrightarrow> n \<in> set (map name store)"
proof -
  assume "length (filter (\<lambda>index. name index = n) store) = 1"
  then have "filter (\<lambda>index. name index = n) store \<noteq> []" by auto
  then obtain i where "i \<in> set (filter (\<lambda>index. name index = n) store)"
    by (meson last_in_set)
  then show ?thesis by auto
qed

lemma create_pinecone_index_existing:
  "index_exists index_name store \<Longrightarrow>
     create_pinecone_index index_name dim store = (Inr False, store, [ListIndexes])"
  by (simp add: create_pinecone_index_def index_exists_def)

lemma from_existing_index_existing:
  "index_exists index_name store \<Longrightarrow> from_existing_index index_name store = (Inr index_name, store)"
  using count1_names [of index_name store]
  by (simp add: from_existing_index_def index_exists_def)

lemma get_retriever_existing:
  assumes "index_exists index_name store"
  shows "get_retriever embedder docs k index_name store =
     (case embedder [''a''] of
        Inl e \<Rightarrow> (Inl e, store, [EmbedDocuments [''a'']])
      | Inr [] \<Rightarrow> (Inl IndexError, store, [EmbedDocuments [''a'']])
      | Inr (v # _) \<Rightarrow> (Inr (as_retriever index_name k), store,
           [EmbedDocuments [''a''], ListIndexes, FromExistingIndex index_name]))"
  by (simp add: get_retriever_def create_pinecone_index_existing [OF assms]
      from_existing_index_existing [OF assms] split: sum.splits list.splits)

lemma get_retriever_existing_store:
  "index_exists index_name store \<Longrightarrow>
     fst (snd (get_retriever embedder docs k index_name store)) = store"
  by (simp add: get_retriever_existing split: sum.splits list.splits)

lemma names_from_documents:
  "map name (snd (from_documents embedder docs n store)) = map name store"
  by (simp add: from_documents_def comp_def split: sum.splits cong: map_cong)

lemma index_exists_names:
  "index_exists n store \<longleftrightarrow> length (filter (\<lambda>x. x = n) (map name store)) = 1"
  by (simp add: index_exists_def filter_map comp_def)

lemma index_exists_create:
  "n \<notin> set (map name store) \<Longrightarrow>
     index_exists n (store @ [\<lparr>name = n, dimension = dim, metric = m, vectors = vs\<rparr>])"
proof -
  assume "n \<notin> set (map name store)"
  then have "filter (\<lambda>x. x = n) (map name store) = []"
    by (auto simp: filter_empty_conv)
  then show ?thesis by (simp add: index_exists_names)
qed

lemma index_exists_from_documents:
  "index_exists n store \<Longrightarrow> index_exists n (snd (from_documents embedder docs n' store))"
  unfolding index_exists_names names_from_documents .

lemma create_pinecone_index_taken:
  "\<not> index_exists index_name store \<Longrightarrow> index_name \<in> set (map name store) \<Longrightarrow>
     fst (snd (create_pinecone_index index_name dim store)) = store
     \<and> (\<exists>e. fst (create_pinecone_index index_name dim store) = Inl e)"
  by (simp add: create_pinecone_index_def index_exists_def create_index_def)

lemma create_pinecone_index_fresh:
  "index_name \<notin> set (map name store) \<Longrightarrow>
     create_pinecone_index index_name dim store =
       (Inr True,
        store @ [\<lparr>name = index_name, dimension = dim, metric = ''cosine'', vectors = []\<rparr>],
        [ListIndexes, CreateIndex index_name dim])"
proof -
  assume a: "index_name \<notin> set (map name store)"
  then have "filter (\<lambda>index. name index = index_name) store = []"
    by (auto simp: filter_empty_conv)
  with a show ?thesis by (simp add: create_pinecone_index_def create_index_def)
qed

lemma get_retriever_cases:
  "index_exists index_name (fst (snd (get_retriever embedder docs k index_name store)))
   \<or> fst (snd (get_retriever embedder docs k index_name store)) = store"
proof (cases "embedder [''a'']")
  case (Inl e)
  then show ?thesis by (simp add: get_retriever_def)
next
  case (Inr vs)
  show ?thesis
  proof (cases vs)
    case Nil
    with Inr show ?thesis by (simp add: get_retriever_def)
  next
    case (Cons v vs')
    show ?thesis
    proof (cases "index_exists index_name store")
      case True
      then show ?thesis by (simp add: get_retriever_existing_store)
    next
      case False
      show ?thesis
      proof (cases "index_name \<in> set (map name store)")
        case True
        from create_pinecone_index_taken [OF False True, of "length v"]
        obtain e t where "create_pinecone_index index_name (length v) store = (Inl e, store, t)"
          by (metis prod.collapse)
        with Inr Cons show ?thesis by (simp add: get_retriever_def)
      next
        case fresh: False
        let ?s1 = "store @ [\<lparr>name = index_name, dimension = length v, metric = ''cosine'',
                      vectors = []\<rparr>]"
        have ex: "index_exists index_name (snd (from_documents embedder docs index_name ?s1))"
          by (rule index_exists_from_documents) (rule index_exists_create [OF fresh])
        obtain r s2 where fd: "from_documents embedder docs index_name ?s1 = (r, s2)"
          by (cases "from_documents embedder docs index_name ?s1")
        with ex have "index_exists index_name s2" by simp
        with Inr Cons fd show ?thesis
          by (cases r) (simp_all add: get_retriever_def create_pinecone_index_fresh [OF fresh])
      qed
    qed
  qed
qed

lemma get_retriever_twice_store:
  "fst (snd (get_retriever embedder docs k index_name
        (fst (snd (get_retriever embedder docs k index_name store)))))
   = fst (snd (get_retriever embedder docs k index_name store))"
  using get_retriever_cases [of index_name embedder docs k store]
  by (auto simp: get_retriever_existing_store)

text \<open>
  Claim C1.  If the store reports an index of the given name, \<open>get_retriever\<close> leaves
  the store as it is and makes no writing call (no \<^verbatim>\<open>create_index\<close>, no
  \<^verbatim>\<open>from_documents\<close>), and it returns a retriever handle on that index whenever the
  embedding model answers the one-text request that precedes the check.  Moreover, for
  every store, a second call with the same arguments leaves the store, and so the number
  of vectors in it, as the first call left it.
\<close>

theorem get_retriever_idempotent:
  "(index_exists index_name store \<longrightarrow>
      fst (snd (get_retriever embedder docs k index_name store)) = store
      \<and> \<not> list_ex is_write (snd (snd (get_retriever embedder docs k index_name store)))
      \<and> ((\<exists>v vs. embedder [''a''] = Inr (v # vs)) \<longrightarrow>
           fst (get_retriever embedder docs k index_name store)
             = Inr (as_retriever index_name k)))
   \<and> fst (snd (get_retriever embedder docs k index_name
          (fst (snd (get_retriever embedder docs k index_name store)))))
       = fst (snd (get_retriever embedder docs k index_name store))
   \<and> vector_count (fst (snd (get_retriever embedder docs k index_name
          (fst (snd (get_retriever embedder docs k index_name store))))))
       = vector_count (fst (snd (get_retriever embedder docs k index_name store)))"
proof -
  have a: "fst (snd (get_retriever embedder docs k index_name store)) = store"
    and b: "\<not> list_ex is_write (snd (snd (get_retriever embedder docs k index_name store)))"
    and c: "(\<exists>v vs. embedder [''a''] = Inr (v # vs)) \<longrightarrow>
           fst (get_retriever embedder docs k index_name store)
             = Inr (as_retriever index_name k)"
    if "index_exists index_name store"
    using that by (auto simp: get_retriever_existing split: sum.splits list.splits)
  show ?thesis
    using a b c by (simp add: get_retriever_twice_store)
qed

theorem get_retriever_idempotent_witness:
  "index_exists ''rag-a''
     [\<lparr>name = ''rag-a'', dimension = 2, metric = ''cosine'',
        vectors = [(\<lparr>page_content = ''sky'', metadata = []\<rparr>, [3, 0 :: int])]\<rparr>]
   \<and> get_retriever (\<lambda>ts. Inr (map (\<lambda>t. [int (length t), 0]) ts))
        [\<lparr>page_content = ''sky'', metadata = []\<rparr>] 5 ''rag-a''
        [\<lparr>name = ''rag-a'', dimension = 2, metric = ''cosine'',
           vectors = [(\<lparr>page_content = ''sky'', metadata = []\<rparr>, [3, 0])]\<rparr>]
     = (Inr \<lparr>handle_index = ''rag-a'', handle_k = 5\<rparr>,
        [\<lparr>name = ''rag-a'', dimension = 2, metric = ''cosine'',
           vectors = [(\<lparr>page_content = ''sky'', metadata = []\<rparr>, [3, 0])]\<rparr>],
        [EmbedDocuments [''a''], ListIndexes, FromExistingIndex ''rag-a''])"
proof -
  let ?store = "[\<lparr>name = ''rag-a'', dimension = 2, metric = ''cosine'',
        vectors = [(\<lparr>page_content = ''sky'', metadata = []\<rparr>, [3, 0 :: int])]\<rparr>]"
  let ?emb = "\<lambda>ts. Inr (map (\<lambda>t. [int (length t), 0]) ts) :: error + int list list"
  let ?docs = "[\<lparr>page_content = ''sky'', metadata = []\<rparr>]"
  have ex: "index_exists ''rag-a'' ?store"
    by (simp add: index_exists_def)
  have e: "\<exists>v vs. ?emb [''a''] = Inr (v # vs)"
    by simp
  from get_retriever_idempotent [of "''rag-a''" ?store ?emb ?docs 5] ex e
  have r: "fst (snd (get_retriever ?emb ?docs 5 ''rag-a'' ?store)) = ?store"
    and h: "fst (get_retriever ?emb ?docs 5 ''rag-a'' ?store) = Inr (as_retriever ''rag-a'' 5)"
    by blast+
  have t: "snd (snd (get_retriever ?emb ?docs 5 ''rag-a'' ?store))
            = [EmbedDocuments [''a''], ListIndexes, FromExistingIndex ''rag-a'']"
    by (simp add: get_retriever_existing [OF ex])
  from r h t ex show ?thesis
    by (simp add: as_retriever_def prod_eq_iff)
qed

text \<open>
  On an empty store the first call creates the index and stores one vector per
  document; the second call adds nothing.
\<close>

lemma get_retriever_fresh_example:
  "vector_count (fst (snd (get_retriever (\<lambda>ts. Inr (map (\<lambda>t. [int (length t), 0]) ts))
        [\<lparr>page_content = ''sky'', metadata = []\<rparr>, \<lparr>page_content = ''grass'', metadata = []\<rparr>]
        5 ''rag-a'' []))) = 2
   \<and> vector_count (fst (snd (get_retriever (\<lambda>ts. Inr (map (\<lambda>t. [int (length t), 0]) ts))
        [\<lparr>page_content = ''sky'', metadata = []\<rparr>, \<lparr>page_content = ''grass'', metadata = []\<rparr>]
        5 ''rag-a''
        (fst (snd (get_retriever (\<lambda>ts. Inr (map (\<lambda>t. [int (length t), 0]) ts))
        [\<lparr>page_content = ''sky'', metadata = []\<rparr>, \<lparr>page_content = ''grass'', metadata = []\<rparr>]
        5 ''rag-a'' [])))))) = 2"
  by (simp add: get_retriever_def create_pinecone_index_def create_index_def from_documents_def
      from_existing_index_def vector_count_def as_retriever_def)

end
